theory Spec2Isabelle
  imports Main
begin

section \<open>Data model\<close>

text \<open>
  Exceptions of the program. Every constructor stands for an instance of Python's
  \<open>Exception\<close> class, which is what the handlers \<open>except Exception\<close> of
  \<open>script.py\<close> and \<open>health.py\<close> catch; the narrower handlers name
  \<open>FileNotFoundError\<close>, \<open>json.JSONDecodeError\<close> and \<open>RequestException\<close>.
\<close>

datatype exn =
    FileNotFoundError
  | JSONDecodeError
  | RequestException
  | KeyError string
  | OtherException string

text \<open>A decoded argument of an event log: an address or an unsigned amount.\<close>

datatype arg = Address string | Uint int

text \<open>
  An event log as \<open>get_logs\<close> returns it. \<open>transactionHash\<close> is kept in its
  hexadecimal form, so that the source's \<open>event['transactionHash'].hex()\<close> is the field
  itself; \<open>args\<close> is the dictionary of decoded arguments.
\<close>

record event =
  transactionHash :: string
  blockNumber :: int
  args :: "(string \<times> arg) list"

text \<open>
  The state file as \<open>_load_last_scanned_block\<close> finds it, one constructor for each way
  the body of its \<open>try\<close> can go: \<open>open\<close> raises \<open>FileNotFoundError\<close>;
  \<open>open\<close> or the read raises another \<open>OSError\<close> (no permission, a directory);
  the bytes are not UTF-8, so the read raises \<open>UnicodeDecodeError\<close>; the text is not
  JSON (an empty or truncated file included), so \<open>json.load\<close> raises
  \<open>JSONDecodeError\<close>; the text is JSON but not an object (a list, a number, a
  string, \<open>null\<close>), so \<open>state.get\<close> raises \<open>AttributeError\<close>; or it is a JSON
  object, given by its keys and values, the values being integers as
  \<open>_save_last_scanned_block\<close> writes them.
\<close>

datatype state_file =
    File_not_found
  | Unreadable
  | Not_utf8
  | Invalid_json
  | Json_non_object
  | Json_dict "(string \<times> int) list"

text \<open>
  The state of an \<open>EventScanner\<close>. \<open>pending_events\<close> is the dictionary of the
  source, in insertion order (the order in which Python iterates it); \<open>state_file\<close> is
  what the file at the scanner's path holds.
\<close>

record event_scanner =
  confirmations :: int
  last_scanned_block :: int
  pending_events :: "(string \<times> event) list"
  state_file :: state_file

text \<open>
  What a run of the program does to the outside world, in order: reading the chain
  height, fetching logs for a block range, writing the state file, a call of the relayer,
  an addition to \<open>processed_txs_cache\<close>, and a \<open>time.sleep\<close>.
\<close>

datatype effect =
    Block_number
  | Get_logs int int
  | Save_last_scanned_block int
  | Relay event
  | Ledger_add string
  | Sleep int

section \<open>EventScanner\<close>

text \<open>
  The source chain as one scan pass sees it: the result of \<open>w3.eth.block_number\<close>, of
  \<open>get_logs(fromBlock, toBlock)\<close>, and whether writing the state file raises.
\<close>

record source_chain =
  block_number :: "exn + int"
  get_logs :: "int \<Rightarrow> int \<Rightarrow> exn + event list"
  save_error :: "exn option"

text \<open>The handler of \<open>_load_last_scanned_block\<close>: the current height minus one.\<close>

definition load_fallback :: "exn + int \<Rightarrow> exn + int" where
  "load_fallback bn = (case bn of Inl e \<Rightarrow> Inl e | Inr h \<Rightarrow> Inr (h - 1))"

text \<open>
  \<open>_load_last_scanned_block\<close>. Its handler names \<open>FileNotFoundError\<close> and
  \<open>json.JSONDecodeError\<close> and nothing else, so the other failures of the file leave
  the function as exceptions. On a JSON object, the default of \<open>state.get\<close> is
  evaluated before the lookup, so the height is read also when the key is present; an
  exception of that read reaches the handler only when it is one of the two the handler
  names. On JSON that is not an object, the attribute \<open>get\<close> is looked up, and fails,
  before the height is read.
\<close>

definition load_last_scanned_block :: "exn + int \<Rightarrow> state_file \<Rightarrow> exn + int" where
  "load_last_scanned_block bn f =
     (case f of
        File_not_found \<Rightarrow> load_fallback bn
      | Unreadable \<Rightarrow> Inl (OtherException ''OSError'')
      | Not_utf8 \<Rightarrow> Inl (OtherException ''UnicodeDecodeError'')
      | Invalid_json \<Rightarrow> load_fallback bn
      | Json_non_object \<Rightarrow> Inl (OtherException ''AttributeError'')
      | Json_dict state \<Rightarrow>
          (case bn of
             Inl e \<Rightarrow>
               (if e = FileNotFoundError \<or> e = JSONDecodeError then load_fallback bn else Inl e)
           | Inr h \<Rightarrow>
               Inr (case map_of state ''last_scanned_block'' of
                      Some v \<Rightarrow> v
                    | None \<Rightarrow> h - 1)))"

text \<open>\<open>EventScanner.__init__\<close>: the cursor is loaded, nothing is pending.\<close>

definition new_event_scanner :: "exn + int \<Rightarrow> state_file \<Rightarrow> int \<Rightarrow> exn + event_scanner" where
  "new_event_scanner bn f conf =
     (case load_last_scanned_block bn f of
        Inl e \<Rightarrow> Inl e
      | Inr b \<Rightarrow> Inr \<lparr>confirmations = conf, last_scanned_block = b,
                      pending_events = [], state_file = f\<rparr>)"

text \<open>The first loop of \<open>scan_and_process_blocks\<close>: a log whose hash is new is tracked.\<close>

fun add_logs :: "event list \<Rightarrow> (string \<times> event) list \<Rightarrow> (string \<times> event) list" where
  "add_logs [] pending = pending"
| "add_logs (ev # logs) pending =
     (let tx_hash = transactionHash ev in
      if tx_hash \<notin> fst ` set pending
      then add_logs logs (pending @ [(tx_hash, ev)])
      else add_logs logs pending)"

text \<open>\<open>del self.pending_events[tx_hash]\<close>.\<close>

definition del_key :: "string \<Rightarrow> (string \<times> event) list \<Rightarrow> (string \<times> event) list" where
  "del_key k pending = filter (\<lambda>(k', ev). k' \<noteq> k) pending"

text \<open>
  The first loop of \<open>_check_confirmations\<close>: it collects the confirmed events and the
  keys to remove, in the order of the dictionary.
\<close>

fun collect_confirmed ::
  "int \<Rightarrow> int \<Rightarrow> (string \<times> event) list \<Rightarrow> event list \<times> string list" where
  "collect_confirmed current_block conf [] = ([], [])"
| "collect_confirmed current_block conf ((tx_hash, ev) # rest) =
     (let (confirmed_events, events_to_remove) = collect_confirmed current_block conf rest in
      if current_block - blockNumber ev \<ge> conf
      then (ev # confirmed_events, tx_hash # events_to_remove)
      else (confirmed_events, events_to_remove))"

text \<open>\<open>_check_confirmations\<close>: the confirmed events, and the scanner without them.\<close>

definition check_confirmations :: "int \<Rightarrow> event_scanner \<Rightarrow> event list \<times> event_scanner" where
  "check_confirmations current_block s =
     (let (confirmed_events, events_to_remove) =
            collect_confirmed current_block (confirmations s) (pending_events s)
      in (confirmed_events,
          s\<lparr>pending_events := fold del_key events_to_remove (pending_events s)\<rparr>))"

text \<open>
  \<open>scan_and_process_blocks\<close>: the effects of the pass, what it returns or raises, and the
  scanner afterwards. A failing fetch is caught and answered with the empty list; the
  height read and the write of the state file are outside any handler.
\<close>

definition scan_and_process_blocks ::
  "source_chain \<Rightarrow> event_scanner \<Rightarrow> effect list \<times> (exn + event list) \<times> event_scanner" where
  "scan_and_process_blocks chain s =
     (case block_number chain of
        Inl e \<Rightarrow> ([Block_number], Inl e, s)
      | Inr latest_block \<Rightarrow>
          if last_scanned_block s \<ge> latest_block then ([Block_number], Inr [], s)
          else
            let from_block = last_scanned_block s + 1;
                to_block = min latest_block (from_block + 100)
            in (case get_logs chain from_block to_block of
                  Inl e \<Rightarrow> ([Block_number, Get_logs from_block to_block], Inr [], s)
                | Inr logs \<Rightarrow>
                    let s1 = s\<lparr>pending_events := add_logs logs (pending_events s)\<rparr>;
                        (confirmed_events, s2) = check_confirmations latest_block s1;
                        s3 = s2\<lparr>last_scanned_block := to_block\<rparr>
                    in (case save_error chain of
                          Some e \<Rightarrow>
                            ([Block_number, Get_logs from_block to_block,
                              Save_last_scanned_block to_block], Inl e, s3)
                        | None \<Rightarrow>
                            ([Block_number, Get_logs from_block to_block,
                              Save_last_scanned_block to_block],
                             Inr confirmed_events,
                             s3\<lparr>state_file := Json_dict [(''last_scanned_block'', to_block)]\<rparr>))))"

section \<open>TransactionRelayer\<close>

text \<open>The receipt of a destination transaction.\<close>

record receipt =
  receipt_status :: int
  receipt_blockNumber :: int

text \<open>
  The destination chain as one call of the relayer sees it: each field is the result of
  the call of that name, in the order in which \<open>relay_mint_transaction\<close> makes them.
  Transactions and calls are opaque strings; a transaction hash is its hexadecimal form.
\<close>

record dest_chain =
  get_transaction_count :: "exn + int"
  mintBridgedTokens :: "arg \<Rightarrow> arg \<Rightarrow> string \<Rightarrow> exn + string"
  gas_price :: "exn + int"
  build_transaction :: "string \<Rightarrow> int \<Rightarrow> int \<Rightarrow> exn + string"
  sign_transaction :: "string \<Rightarrow> exn + string"
  send_raw_transaction :: "string \<Rightarrow> exn + string"
  wait_for_transaction_receipt :: "string \<Rightarrow> exn + receipt"

text \<open>Sequencing of statements that may raise: the first exception ends the block.\<close>

definition and_then :: "exn + 'a \<Rightarrow> ('a \<Rightarrow> exn + 'b) \<Rightarrow> exn + 'b" where
  "and_then r f = (case r of Inl e \<Rightarrow> Inl e | Inr v \<Rightarrow> f v)"

text \<open>Subscription of a dictionary: a missing key raises \<open>KeyError\<close>.\<close>

definition getitem :: "(string \<times> 'a) list \<Rightarrow> string \<Rightarrow> exn + 'a" where
  "getitem d k = (case map_of d k of None \<Rightarrow> Inl (KeyError k) | Some v \<Rightarrow> Inr v)"

text \<open>The \<open>try\<close> block of \<open>relay_mint_transaction\<close>.\<close>

definition relay_body :: "dest_chain \<Rightarrow> event \<Rightarrow> exn + string option" where
  "relay_body d ev =
     and_then (getitem (args ev) ''recipient'') (\<lambda>recipient.
     and_then (getitem (args ev) ''amount'') (\<lambda>amount.
     and_then (get_transaction_count d) (\<lambda>nonce.
     and_then (mintBridgedTokens d recipient amount (transactionHash ev)) (\<lambda>call.
     and_then (gas_price d) (\<lambda>price.
     and_then (build_transaction d call nonce price) (\<lambda>tx_data.
     and_then (sign_transaction d tx_data) (\<lambda>signed_tx.
     and_then (send_raw_transaction d signed_tx) (\<lambda>tx_hash.
     and_then (wait_for_transaction_receipt d tx_hash) (\<lambda>receipt.
     Inr (if receipt_status receipt = 1 then Some tx_hash else None))))))))))"

text \<open>\<open>relay_mint_transaction\<close>: the block under its handler \<open>except Exception\<close>.\<close>

definition relay_mint_transaction :: "dest_chain \<Rightarrow> event \<Rightarrow> string option" where
  "relay_mint_transaction d ev = (case relay_body d ev of Inl e \<Rightarrow> None | Inr r \<Rightarrow> r)"

section \<open>CrossChainProcessor\<close>

record config =
  source_rpc_url :: string
  dest_rpc_url :: string
  confirmation_blocks :: int
  scan_interval_seconds :: int

text \<open>
  An HTTP response: what \<open>raise_for_status\<close> raises, if anything, and the result of
  \<open>json()\<close>, a JSON object given by its keys.
\<close>

record response =
  raise_for_status :: "exn option"
  json :: "exn + string list"

record processor =
  config :: config
  event_scanner :: event_scanner
  processed_txs_cache :: "string set"

text \<open>
  The world during one cycle of \<open>run\<close>: the answer of \<open>requests.post\<close> for a URL, the
  source chain, and the destination chain as it answers the relay of a given event.
\<close>

record cycle_env =
  post :: "string \<Rightarrow> exn + response"
  chain :: source_chain
  dest :: "event \<Rightarrow> dest_chain"

text \<open>
  \<open>_is_rpc_healthy\<close>: the handler turns a \<open>RequestException\<close> into \<open>False\<close>; any other
  exception leaves the function.
\<close>

definition is_rpc_healthy :: "(string \<Rightarrow> exn + response) \<Rightarrow> string \<Rightarrow> exn + bool" where
  "is_rpc_healthy http url =
     (case and_then (http url) (\<lambda>r.
             case raise_for_status r of
               Some e \<Rightarrow> Inl e
             | None \<Rightarrow> and_then (json r) (\<lambda>keys. Inr (''result'' \<in> set keys))) of
        Inl e \<Rightarrow> (if e = RequestException then Inr False else Inl e)
      | Inr b \<Rightarrow> Inr b)"

text \<open>
  The \<open>for\<close> loop of \<open>run\<close> over the confirmed events: an event whose hash is in the cache
  is skipped; otherwise it is relayed, and its hash is added when the relayer returns a
  true value (a non-empty string).
\<close>

fun process_events ::
  "(event \<Rightarrow> dest_chain) \<Rightarrow> event list \<Rightarrow> string set \<Rightarrow> effect list \<times> string set" where
  "process_events d [] cache = ([], cache)"
| "process_events d (ev # evs) cache =
     (let source_tx_hash = transactionHash ev in
      if source_tx_hash \<in> cache then process_events d evs cache
      else
        (case relay_mint_transaction (d ev) ev of
           None \<Rightarrow>
             (let (tr, cache') = process_events d evs cache in (Relay ev # tr, cache'))
         | Some relay_tx_hash \<Rightarrow>
             if relay_tx_hash \<noteq> []
             then (let (tr, cache') = process_events d evs (insert source_tx_hash cache)
                   in (Relay ev # Ledger_add source_tx_hash # tr, cache'))
             else (let (tr, cache') = process_events d evs cache in (Relay ev # tr, cache'))))"

text \<open>
  One iteration of the \<open>while True\<close> loop of \<open>run\<close>. An unhealthy endpoint and an
  exception caught by \<open>except Exception\<close> both end the iteration with a sleep of 60
  seconds; a completed iteration sleeps \<open>scan_interval_seconds\<close>.
\<close>

definition health_gate :: "cycle_env \<Rightarrow> processor \<Rightarrow> exn + bool" where
  "health_gate env p =
     and_then (is_rpc_healthy (post env) (source_rpc_url (config p))) (\<lambda>src.
       if \<not> src then Inr False
       else and_then (is_rpc_healthy (post env) (dest_rpc_url (config p))) (\<lambda>dst. Inr dst))"

definition run_cycle :: "cycle_env \<Rightarrow> processor \<Rightarrow> effect list \<times> processor" where
  "run_cycle env p =
     (case health_gate env p of
        Inl e \<Rightarrow> ([Sleep 60], p)
      | Inr False \<Rightarrow> ([Sleep 60], p)
      | Inr True \<Rightarrow>
          (case scan_and_process_blocks (chain env) (event_scanner p) of
             (tr, Inl e, s') \<Rightarrow> (tr @ [Sleep 60], p\<lparr>event_scanner := s'\<rparr>)
           | (tr, Inr confirmed_events, s') \<Rightarrow>
               (let (tr', cache') =
                      process_events (dest env) confirmed_events (processed_txs_cache p)
                in (tr @ tr' @ [Sleep (scan_interval_seconds (config p))],
                    p\<lparr>event_scanner := s', processed_txs_cache := cache'\<rparr>))))"

text \<open>The loop of \<open>run\<close>, for as many iterations as there are environments.\<close>

fun run :: "cycle_env list \<Rightarrow> processor \<Rightarrow> effect list \<times> processor" where
  "run [] p = ([], p)"
| "run (env # envs) p =
     (let (tr, p') = run_cycle env p; (tr', p'') = run envs p' in (tr @ tr', p''))"

text \<open>
  \<open>CrossChainProcessor.__init__\<close>: the cache is a new empty set and the scanner is newly
  made from the state file.
\<close>

definition new_processor :: "config \<Rightarrow> exn + int \<Rightarrow> state_file \<Rightarrow> exn + processor" where
  "new_processor c bn f =
     (case new_event_scanner bn f (confirmation_blocks c) of
        Inl e \<Rightarrow> Inl e
      | Inr s \<Rightarrow> Inr \<lparr>config = c, event_scanner = s, processed_txs_cache = {}\<rparr>)"

text \<open>
  The life of a deployment: cycles of the loop, and restarts of the process, which keep
  the configuration and the state file and nothing else.
\<close>

datatype step = Cycle cycle_env | Restart "exn + int"

fun run_steps :: "step list \<Rightarrow> processor \<Rightarrow> exn + effect list \<times> processor" where
  "run_steps [] p = Inr ([], p)"
| "run_steps (Cycle env # steps) p =
     (let (tr, p') = run_cycle env p in
      case run_steps steps p' of
        Inl e \<Rightarrow> Inl e
      | Inr (tr', p'') \<Rightarrow> Inr (tr @ tr', p''))"
| "run_steps (Restart bn # steps) p =
     (case new_processor (config p) bn (state_file (event_scanner p)) of
        Inl e \<Rightarrow> Inl e
      | Inr p' \<Rightarrow> run_steps steps p')"

section \<open>HealthChecker\<close>

datatype health_status = Healthy | Unhealthy | Unknown

text \<open>
  The state of a \<open>HealthChecker\<close>: \<open>thread\<close> is \<open>None\<close> when no thread was made, and
  otherwise tells whether the thread is alive; \<open>stop_event\<close> is the flag of the event.
\<close>

record health_checker =
  interval :: int
  status :: health_status
  thread :: "bool option"
  stop_event :: bool

text \<open>The body of the loop of \<open>_run_checks\<close>, given what \<open>check_func\<close> returns or raises.\<close>

definition run_check :: "exn + bool \<Rightarrow> health_checker \<Rightarrow> health_checker" where
  "run_check probe c =
     (case probe of
        Inr is_healthy \<Rightarrow> c\<lparr>status := (if is_healthy then Healthy else Unhealthy)\<rparr>
      | Inl e \<Rightarrow> c\<lparr>status := Unhealthy\<rparr>)"

text \<open>
  \<open>_run_checks\<close>, for a list of rounds: what the probe does in the round, and whether
  the event is set during the wait that follows it. The thread ends when the loop does.
\<close>

fun run_checks :: "((exn + bool) \<times> bool) list \<Rightarrow> health_checker \<Rightarrow> health_checker" where
  "run_checks [] c = c"
| "run_checks ((probe, set_during_wait) # rounds) c =
     (if stop_event c then c\<lparr>thread := Some False\<rparr>
      else run_checks rounds
             ((run_check probe c)\<lparr>stop_event := set_during_wait\<rparr>))"

definition start :: "health_checker \<Rightarrow> health_checker" where
  "start c =
     (if thread c = None \<or> thread c = Some False
      then c\<lparr>stop_event := False, thread := Some True\<rparr>
      else c)"

text \<open>\<open>stop\<close>; \<open>joined\<close> tells whether the thread ended within the timeout of the join.\<close>

definition stop :: "bool \<Rightarrow> health_checker \<Rightarrow> health_checker" where
  "stop joined c =
     (if thread c = Some True
      then c\<lparr>stop_event := True, thread := Some (\<not> joined)\<rparr>
      else c)"

section \<open>Traces and the ledger\<close>

text \<open>The hashes added to \<open>processed_txs_cache\<close> in a trace, in order.\<close>

fun ledger_adds :: "effect list \<Rightarrow> string list" where
  "ledger_adds [] = []"
| "ledger_adds (Ledger_add h # tr) = h # ledger_adds tr"
| "ledger_adds (x # tr) = ledger_adds tr"

text \<open>
  A trace respects the ledger \<open>L\<close> it starts with when, read from left to right with
  the ledger growing by each addition, every relay is of an event whose hash is not in
  the ledger at that moment, and every addition is of a hash that is not yet in it.
\<close>

fun ledger_respected :: "string set \<Rightarrow> effect list \<Rightarrow> bool" where
  "ledger_respected L [] = True"
| "ledger_respected L (Relay ev # tr) = (transactionHash ev \<notin> L \<and> ledger_respected L tr)"
| "ledger_respected L (Ledger_add h # tr) = (h \<notin> L \<and> ledger_respected (insert h L) tr)"
| "ledger_respected L (x # tr) = ledger_respected L tr"

section \<open>Example inputs\<close>

text \<open>A deposit event with the given transaction hash, in the given block.\<close>

definition deposit :: "string \<Rightarrow> int \<Rightarrow> event" where
  "deposit h b =
     \<lparr>transactionHash = h, blockNumber = b,
      args = [(''sender'', Address ''0x51''), (''recipient'', Address ''0x52''),
              (''amount'', Uint 5)]\<rparr>"

text \<open>
  A source node at height \<open>h\<close> whose chain holds the events \<open>evs\<close>: it answers a fetch
  with the events of the requested range, and the state file can be written.
\<close>

definition node :: "int \<Rightarrow> event list \<Rightarrow> source_chain" where
  "node h evs =
     \<lparr>block_number = Inr h,
      get_logs = (\<lambda>f t. Inr (filter (\<lambda>ev. f \<le> blockNumber ev \<and> blockNumber ev \<le> t) evs)),
      save_error = None\<rparr>"

text \<open>A scanner with threshold 12, the given cursor (also persisted) and pending events.\<close>

definition scanner_at :: "int \<Rightarrow> (string \<times> event) list \<Rightarrow> event_scanner" where
  "scanner_at cur ps =
     \<lparr>confirmations = 12, last_scanned_block = cur, pending_events = ps,
      state_file = Json_dict [(''last_scanned_block'', cur)]\<rparr>"

text \<open>A source node at height \<open>h\<close> whose log fetch raises.\<close>

definition failing_node :: "int \<Rightarrow> source_chain" where
  "failing_node h =
     \<lparr>block_number = Inr h,
      get_logs = (\<lambda>f t. Inl (OtherException ''timeout'')),
      save_error = None\<rparr>"

text \<open>
  A destination chain on which every call succeeds and the receipt reports success, one
  whose submission raises, and one whose receipt reports a revert.
\<close>

definition good_dest :: dest_chain where
  "good_dest =
     \<lparr>get_transaction_count = Inr 7,
      mintBridgedTokens = (\<lambda>recipient amount h. Inr (''mint '' @ h)),
      gas_price = Inr 1,
      build_transaction = (\<lambda>call nonce price. Inr call),
      sign_transaction = (\<lambda>tx. Inr tx),
      send_raw_transaction = (\<lambda>raw. Inr ''0xd1''),
      wait_for_transaction_receipt =
        (\<lambda>h. Inr \<lparr>receipt_status = 1, receipt_blockNumber = 9\<rparr>)\<rparr>"

definition offline_dest :: dest_chain where
  "offline_dest =
     good_dest\<lparr>send_raw_transaction := (\<lambda>raw. Inl (OtherException ''ConnectionError''))\<rparr>"

definition reverting_dest :: dest_chain where
  "reverting_dest =
     good_dest\<lparr>wait_for_transaction_receipt :=
                 (\<lambda>h. Inr \<lparr>receipt_status = 0, receipt_blockNumber = 9\<rparr>)\<rparr>"

text \<open>A health checker as its constructor leaves it.\<close>

definition new_checker :: health_checker where
  "new_checker = \<lparr>interval = 60, status = Unknown, thread = None, stop_event = False\<rparr>"

text \<open>
  Answers to the health probe: a JSON-RPC reply from every endpoint, a source endpoint
  that cannot be reached, and a destination endpoint that answers with an error status.
\<close>

definition healthy_http :: "string \<Rightarrow> exn + response" where
  "healthy_http url =
     Inr \<lparr>raise_for_status = None, json = Inr [''jsonrpc'', ''id'', ''result'']\<rparr>"

definition source_down_http :: "string \<Rightarrow> exn + response" where
  "source_down_http url =
     (if url = ''http://source'' then Inl RequestException else healthy_http url)"

definition dest_down_http :: "string \<Rightarrow> exn + response" where
  "dest_down_http url =
     (if url = ''http://dest''
      then Inr \<lparr>raise_for_status = Some RequestException, json = Inr []\<rparr>
      else healthy_http url)"

text \<open>
  A processor with the default threshold 12 and poll interval 15, the given cursor,
  nothing pending and an empty cache.
\<close>

definition processor_at :: "int \<Rightarrow> processor" where
  "processor_at cur =
     \<lparr>config = \<lparr>source_rpc_url = ''http://source'', dest_rpc_url = ''http://dest'',
                 confirmation_blocks = 12, scan_interval_seconds = 15\<rparr>,
      event_scanner = scanner_at cur [],
      processed_txs_cache = {}\<rparr>"

text \<open>The world of a cycle, with a destination chain that answers every relay alike.\<close>

definition world ::
  "(string \<Rightarrow> exn + response) \<Rightarrow> source_chain \<Rightarrow> dest_chain \<Rightarrow> cycle_env" where
  "world http src dst = \<lparr>post = http, chain = src, dest = (\<lambda>ev. dst)\<rparr>"

section \<open>The confirmation pass\<close>

lemma collect_confirmed_eq:
  "collect_confirmed H c ps =
     (map snd (filter (\<lambda>(h, ev). c \<le> H - blockNumber ev) ps),
      map fst (filter (\<lambda>(h, ev). c \<le> H - blockNumber ev) ps))"
  by (induction ps) auto

lemma fold_del_key: "fold del_key ks ps = filter (\<lambda>(k, ev). k \<notin> set ks) ps"
proof (induction ks arbitrary: ps)
  case Nil
  then show ?case by simp
next
  case (Cons k ks)
  have "filter (\<lambda>(k', ev). k' \<notin> set ks) (del_key k ps) =
        filter (\<lambda>(k', ev). k' \<notin> set (k # ks)) ps"
    unfolding del_key_def by (induction ps) auto
  with Cons show ?case by simp
qed

text \<open>
  In a dictionary a key stands for one entry, so deleting the keys of the entries that
  satisfy \<open>P\<close> leaves the entries that do not.
\<close>

lemma filter_removed_keys:
  "distinct (map fst ps) \<Longrightarrow>
   filter (\<lambda>(k, ev). k \<notin> set (map fst (filter P ps))) ps = filter (\<lambda>x. \<not> P x) ps"
proof (rule filter_cong[OF refl])
  fix x assume d: "distinct (map fst ps)" and x: "x \<in> set ps"
  obtain k ev where xk: "x = (k, ev)" by (cases x)
  have "k \<in> fst ` set (filter P ps) \<longleftrightarrow> P (k, ev)"
  proof
    assume "k \<in> fst ` set (filter P ps)"
    then obtain ev' where m: "(k, ev') \<in> set ps" and p: "P (k, ev')" by auto
    from d m x xk have "ev' = ev" by (metis eq_key_imp_eq_value)
    with p show "P (k, ev)" by simp
  next
    assume "P (k, ev)"
    with x xk show "k \<in> fst ` set (filter P ps)" by force
  qed
  then show "(case x of (k, ev) \<Rightarrow> k \<notin> set (map fst (filter P ps))) = (\<not> P x)"
    by (simp add: xk)
qed

lemma check_confirmations_eq:
  assumes "distinct (map fst (pending_events s))"
  shows "check_confirmations H s =
    (map snd (filter (\<lambda>(h, ev). confirmations s \<le> H - blockNumber ev) (pending_events s)),
     s\<lparr>pending_events :=
         filter (\<lambda>(h, ev). H - blockNumber ev < confirmations s) (pending_events s)\<rparr>)"
proof -
  let ?P = "\<lambda>(h, ev). confirmations s \<le> H - blockNumber (ev::event)"
  have n: "(\<lambda>x. \<not> ?P x) = (\<lambda>(h, ev). H - blockNumber ev < confirmations s)"
    by (auto simp: fun_eq_iff)
  obtain a b where ab: "collect_confirmed H (confirmations s) (pending_events s) = (a, b)"
    by (cases "collect_confirmed H (confirmations s) (pending_events s)")
  have a: "a = map snd (filter ?P (pending_events s))"
    and b: "b = map fst (filter ?P (pending_events s))"
    using collect_confirmed_eq[of H "confirmations s" "pending_events s"] ab by simp_all
  show ?thesis
    unfolding check_confirmations_def ab
    using filter_removed_keys[OF assms, of ?P]
    by (simp add: a b fold_del_key n)
qed

text \<open>
  C4. A tracked event is confirmed exactly when its age, the current height minus its
  block, is at least the threshold: the pass returns the pending events of that age, in
  the order of the dictionary, and the pending events after the pass are the younger ones.
  With threshold 12 at height 100, an event of block 85 is confirmed and an event of
  block 95 stays pending.
\<close>

theorem confirmed_exactly_at_threshold:
  assumes "distinct (map fst (pending_events s))"
  shows "fst (check_confirmations H s) =
           map snd (filter (\<lambda>(h, ev). H - blockNumber ev \<ge> confirmations s) (pending_events s))
       \<and> pending_events (snd (check_confirmations H s)) =
           filter (\<lambda>(h, ev). H - blockNumber ev < confirmations s) (pending_events s)"
  by (simp add: check_confirmations_eq[OF assms])

theorem confirmed_exactly_at_threshold_witness:
  "distinct (map fst (pending_events
       (scanner_at 50 [(''0xaa'', deposit ''0xaa'' 85), (''0xbb'', deposit ''0xbb'' 95)])))
   \<and> fst (check_confirmations 100
       (scanner_at 50 [(''0xaa'', deposit ''0xaa'' 85), (''0xbb'', deposit ''0xbb'' 95)]))
     = [deposit ''0xaa'' 85]
   \<and> pending_events (snd (check_confirmations 100
       (scanner_at 50 [(''0xaa'', deposit ''0xaa'' 85), (''0xbb'', deposit ''0xbb'' 95)])))
     = [(''0xbb'', deposit ''0xbb'' 95)]"
  using confirmed_exactly_at_threshold
          [of "scanner_at 50 [(''0xaa'', deposit ''0xaa'' 85), (''0xbb'', deposit ''0xbb'' 95)]" 100]
  by (simp add: scanner_at_def deposit_def)

section \<open>The scan pass\<close>

lemma add_logs_distinct:
  "distinct (map fst ps) \<Longrightarrow> distinct (map fst (add_logs logs ps))"
  by (induction logs arbitrary: ps) (auto simp: Let_def)

lemma scan_fetch_failure:
  assumes "block_number ch = Inr H" and "last_scanned_block s < H"
    and "get_logs ch (last_scanned_block s + 1) (min H (last_scanned_block s + 101)) = Inl e"
  shows "scan_and_process_blocks ch s =
     ([Block_number, Get_logs (last_scanned_block s + 1) (min H (last_scanned_block s + 101))],
      Inr [], s)"
  using assms by (simp add: scan_and_process_blocks_def Let_def add.commute)

lemma scan_success:
  assumes "block_number ch = Inr H" and "last_scanned_block s < H"
    and "get_logs ch (last_scanned_block s + 1) (min H (last_scanned_block s + 101)) = Inr logs"
    and "save_error ch = None"
  shows "scan_and_process_blocks ch s =
     ([Block_number, Get_logs (last_scanned_block s + 1) (min H (last_scanned_block s + 101)),
       Save_last_scanned_block (min H (last_scanned_block s + 101))],
      Inr (fst (check_confirmations H (s\<lparr>pending_events := add_logs logs (pending_events s)\<rparr>))),
      (snd (check_confirmations H (s\<lparr>pending_events := add_logs logs (pending_events s)\<rparr>)))
        \<lparr>last_scanned_block := min H (last_scanned_block s + 101),
         state_file := Json_dict [(''last_scanned_block'', min H (last_scanned_block s + 101))]\<rparr>)"
  using assms
  by (simp add: scan_and_process_blocks_def Let_def add.commute split: prod.splits)

text \<open>
  The keys of the pending dictionary stay pairwise different through a pass, as they are
  in a dictionary; this is the hypothesis of the statements on the confirmation pass.
\<close>

lemma check_confirmations_distinct:
  assumes "distinct (map fst (pending_events s))"
  shows "distinct (map fst (pending_events (snd (check_confirmations H s))))"
  by (simp add: check_confirmations_eq[OF assms] distinct_map_filter[OF assms])

lemma scan_pending_distinct:
  assumes "distinct (map fst (pending_events s))"
  shows "distinct (map fst (pending_events (snd (snd (scan_and_process_blocks ch s)))))"
proof -
  have "distinct (map fst (pending_events
          (snd (check_confirmations H (s\<lparr>pending_events := add_logs logs (pending_events s)\<rparr>)))))"
    for H logs
    by (rule check_confirmations_distinct) (simp add: add_logs_distinct[OF assms])
  then show ?thesis
    using assms
    by (auto simp: scan_and_process_blocks_def Let_def
             split: sum.splits option.splits prod.splits dest!: arg_cong[where f = snd])
qed

text \<open>
  C3, as amended. A pass at height \<open>H\<close> above the cursor fetches the logs of the blocks
  from cursor + 1 to the smaller of \<open>H\<close> and cursor + 101, since the end of the range is
  its start plus 100, and when the fetch and the write succeed the cursor, in memory and
  in the state file, is the end of that range. With cursor 50 at height 500 the pass
  covers blocks 51 to 151 and the cursor becomes 151, not 500.
\<close>

theorem scan_range_and_cursor:
  assumes "block_number ch = Inr H" and "last_scanned_block s < H"
    and "get_logs ch (last_scanned_block s + 1) (min H (last_scanned_block s + 101)) = Inr logs"
    and "save_error ch = None"
  shows "fst (scan_and_process_blocks ch s) =
           [Block_number,
            Get_logs (last_scanned_block s + 1) (min H (last_scanned_block s + 101)),
            Save_last_scanned_block (min H (last_scanned_block s + 101))]
       \<and> last_scanned_block (snd (snd (scan_and_process_blocks ch s))) =
           min H (last_scanned_block s + 101)
       \<and> state_file (snd (snd (scan_and_process_blocks ch s))) =
           Json_dict [(''last_scanned_block'', min H (last_scanned_block s + 101))]"
  by (simp add: scan_success[OF assms])

theorem scan_range_and_cursor_witness:
  "block_number (node 500 []) = Inr 500
   \<and> last_scanned_block (scanner_at 50 []) < 500
   \<and> get_logs (node 500 []) 51 151 = Inr []
   \<and> save_error (node 500 []) = None
   \<and> fst (scan_and_process_blocks (node 500 []) (scanner_at 50 [])) =
       [Block_number, Get_logs 51 151, Save_last_scanned_block 151]
   \<and> last_scanned_block (snd (snd (scan_and_process_blocks (node 500 []) (scanner_at 50 []))))
       = 151
   \<and> state_file (snd (snd (scan_and_process_blocks (node 500 []) (scanner_at 50 [])))) =
       Json_dict [(''last_scanned_block'', 151)]"
  using scan_range_and_cursor [of "node 500 []" 500 "scanner_at 50 []" "[]"]
  by (simp add: node_def scanner_at_def)

text \<open>
  C3 as stated fails: with cursor 50 at height 500 the pass does not fetch blocks 51 to
  150, and the cursor does not become 150.
\<close>

theorem scan_chunk_counterexample:
  "fst (scan_and_process_blocks (node 500 []) (scanner_at 50 [])) \<noteq>
       [Block_number, Get_logs 51 150, Save_last_scanned_block 150]
   \<and> last_scanned_block (snd (snd (scan_and_process_blocks (node 500 []) (scanner_at 50 []))))
       \<noteq> 150"
  by (simp add: scan_and_process_blocks_def node_def scanner_at_def check_confirmations_def)

text \<open>
  C5, as amended. When the fetch of the logs raises, the pass ends after the fetch with
  the scanner as it was (the cursor in memory, the state file and the pending events),
  and it returns the empty list, as a pass without confirmed events does.
\<close>

theorem fetch_failure_leaves_state:
  assumes "block_number ch = Inr H" and "last_scanned_block s < H"
    and "get_logs ch (last_scanned_block s + 1) (min H (last_scanned_block s + 101)) = Inl e"
  shows "scan_and_process_blocks ch s =
     ([Block_number, Get_logs (last_scanned_block s + 1) (min H (last_scanned_block s + 101))],
      Inr [], s)"
  by (rule scan_fetch_failure[OF assms])

theorem fetch_failure_leaves_state_witness:
  "block_number (failing_node 100) = Inr 100
   \<and> last_scanned_block (scanner_at 50 [(''0xbb'', deposit ''0xbb'' 45)]) < 100
   \<and> get_logs (failing_node 100) 51 100 = Inl (OtherException ''timeout'')
   \<and> scan_and_process_blocks (failing_node 100) (scanner_at 50 [(''0xbb'', deposit ''0xbb'' 45)])
       = ([Block_number, Get_logs 51 100], Inr [],
          scanner_at 50 [(''0xbb'', deposit ''0xbb'' 45)])"
  using fetch_failure_leaves_state
    [of "failing_node 100" 100 "scanner_at 50 [(''0xbb'', deposit ''0xbb'' 45)]"
        "OtherException ''timeout''"]
  by (simp add: failing_node_def scanner_at_def)

text \<open>
  C5 as stated fails: the pass whose fetch raises returns the empty list and no
  exception, which is what a pass over blocks without events and a pass without new
  blocks return.
\<close>

theorem fetch_failure_counterexample:
  "fst (snd (scan_and_process_blocks (failing_node 100) (scanner_at 50 []))) = Inr []
   \<and> fst (snd (scan_and_process_blocks (node 100 []) (scanner_at 50 []))) = Inr []
   \<and> fst (snd (scan_and_process_blocks (node 50 []) (scanner_at 50 []))) = Inr []"
  by (simp add: scan_and_process_blocks_def node_def failing_node_def scanner_at_def
        check_confirmations_def)

section \<open>Startup\<close>




section \<open>The relayer\<close>

lemma and_then_Inr_iff: "and_then r f = Inr y \<longleftrightarrow> (\<exists>v. r = Inr v \<and> f v = Inr y)"
  by (cases r) (auto simp: and_then_def)

lemma relay_body_Some:
  "relay_body d ev = Inr (Some h) \<longleftrightarrow>
     (\<exists>recipient amount nonce call price tx_data signed_tx receipt.
        getitem (args ev) ''recipient'' = Inr recipient
      \<and> getitem (args ev) ''amount'' = Inr amount
      \<and> get_transaction_count d = Inr nonce
      \<and> mintBridgedTokens d recipient amount (transactionHash ev) = Inr call
      \<and> gas_price d = Inr price
      \<and> build_transaction d call nonce price = Inr tx_data
      \<and> sign_transaction d tx_data = Inr signed_tx
      \<and> send_raw_transaction d signed_tx = Inr h
      \<and> wait_for_transaction_receipt d h = Inr receipt
      \<and> receipt_status receipt = 1)"
  unfolding relay_body_def and_then_Inr_iff by auto

text \<open>
  C10. \<open>relay_mint_transaction\<close> returns a value for every event and every behaviour of
  the destination chain: \<open>None\<close> when any step of its body raises, and the hash of the
  destination transaction exactly when the payload was read, every call succeeded, that
  hash is the one the submission returned, and the receipt has status 1. A receipt
  with another status therefore gives \<open>None\<close> as well.
\<close>

theorem relay_mint_transaction_total:
  "(relay_body d ev = Inl e \<longrightarrow> relay_mint_transaction d ev = None)
   \<and> (relay_mint_transaction d ev = Some h \<longleftrightarrow>
     (\<exists>recipient amount nonce call price tx_data signed_tx receipt.
        getitem (args ev) ''recipient'' = Inr recipient
      \<and> getitem (args ev) ''amount'' = Inr amount
      \<and> get_transaction_count d = Inr nonce
      \<and> mintBridgedTokens d recipient amount (transactionHash ev) = Inr call
      \<and> gas_price d = Inr price
      \<and> build_transaction d call nonce price = Inr tx_data
      \<and> sign_transaction d tx_data = Inr signed_tx
      \<and> send_raw_transaction d signed_tx = Inr h
      \<and> wait_for_transaction_receipt d h = Inr receipt
      \<and> receipt_status receipt = 1))"
proof -
  have "relay_mint_transaction d ev = Some h \<longleftrightarrow> relay_body d ev = Inr (Some h)"
    by (cases "relay_body d ev") (auto simp: relay_mint_transaction_def)
  then show ?thesis
    unfolding relay_body_Some by (simp add: relay_mint_transaction_def)
qed

lemmas relay_defs = relay_mint_transaction_def relay_body_def and_then_def getitem_def
  good_dest_def offline_dest_def reverting_dest_def deposit_def

theorem relay_mint_transaction_total_witness:
  "relay_body offline_dest (deposit ''0xaa'' 85) = Inl (OtherException ''ConnectionError'')
   \<and> relay_mint_transaction offline_dest (deposit ''0xaa'' 85) = None
   \<and> relay_mint_transaction good_dest (deposit ''0xaa'' 85) = Some ''0xd1''
   \<and> relay_mint_transaction reverting_dest (deposit ''0xaa'' 85) = None
   \<and> relay_mint_transaction good_dest ((deposit ''0xaa'' 85)\<lparr>args := []\<rparr>) = None"
proof -
  have b: "relay_body offline_dest (deposit ''0xaa'' 85) =
             Inl (OtherException ''ConnectionError'')"
    by (simp add: relay_defs)
  have n: "relay_mint_transaction offline_dest (deposit ''0xaa'' 85) = None"
    using relay_mint_transaction_total
      [of offline_dest "deposit ''0xaa'' 85" "OtherException ''ConnectionError''" "''0xd1''"] b
    by blast
  have g: "relay_mint_transaction good_dest (deposit ''0xaa'' 85) = Some ''0xd1''"
    by (simp add: relay_defs)
  have r: "relay_mint_transaction reverting_dest (deposit ''0xaa'' 85) = None"
    by (simp add: relay_defs)
  have k: "relay_mint_transaction good_dest ((deposit ''0xaa'' 85)\<lparr>args := []\<rparr>) = None"
    by (simp add: relay_defs)
  from b n g r k show ?thesis by blast
qed

section \<open>The health checker\<close>

lemma run_checks_last_raises:
  "\<not> stop_event c \<Longrightarrow> \<forall>(probe, b) \<in> set rounds. \<not> b \<Longrightarrow>
   status (run_checks (rounds @ [(Inl e, b')]) c) = Unhealthy"
proof (induction rounds arbitrary: c)
  case Nil
  then show ?case by (simp add: run_check_def)
next
  case (Cons r rounds)
  obtain probe b where r: "r = (probe, b)" by (cases r)
  from Cons.prems r have nb: "\<not> b" and rest: "\<forall>(probe, b) \<in> set rounds. \<not> b" by auto
  have "\<not> stop_event ((run_check probe c)\<lparr>stop_event := b\<rparr>)" using nb by simp
  from Cons.IH[OF this rest] Cons.prems(1) r show ?case by simp
qed

text \<open>
  C9. A round of the check loop whose probe raises sets the status to unhealthy and
  raises nothing, so a loop that runs until such a round ends it with the status
  unhealthy; \<open>start\<close> leaves a checker whose thread is alive as it is, and \<open>stop\<close>
  leaves a checker without a live thread as it is.
\<close>

theorem probe_exception_is_unhealthy:
  "status (run_check (Inl e) c) = Unhealthy
   \<and> (\<not> stop_event c \<and> (\<forall>(probe, b) \<in> set rounds. \<not> b) \<longrightarrow>
        status (run_checks (rounds @ [(Inl e, b')]) c) = Unhealthy)
   \<and> (thread c = Some True \<longrightarrow> start c = c)
   \<and> (thread c \<noteq> Some True \<longrightarrow> stop joined c = c)"
  using run_checks_last_raises[of c rounds e b']
  by (simp add: run_check_def start_def stop_def)

theorem probe_exception_is_unhealthy_witness:
  "thread (start new_checker) = Some True
   \<and> \<not> stop_event (start new_checker)
   \<and> status (run_check (Inl (OtherException ''boom'')) (start new_checker)) = Unhealthy
   \<and> status (run_checks ([(Inr True, False)] @ [(Inl (OtherException ''boom''), False)])
               (start new_checker)) = Unhealthy
   \<and> start (start new_checker) = start new_checker
   \<and> thread new_checker \<noteq> Some True
   \<and> stop True new_checker = new_checker"
proof -
  have t: "thread (start new_checker) = Some True" and e: "\<not> stop_event (start new_checker)"
    and u: "thread new_checker \<noteq> Some True"
    by (simp_all add: start_def new_checker_def)
  have q: "\<forall>(probe, b) \<in> set [(Inr True :: exn + bool, False)]. \<not> b" by simp
  from probe_exception_is_unhealthy
         [of "OtherException ''boom''" "start new_checker" "[(Inr True, False)]" False True]
       t e q
  have "status (run_check (Inl (OtherException ''boom'')) (start new_checker)) = Unhealthy
     \<and> status (run_checks ([(Inr True, False)] @ [(Inl (OtherException ''boom''), False)])
                 (start new_checker)) = Unhealthy
     \<and> start (start new_checker) = start new_checker"
    by blast
  moreover from probe_exception_is_unhealthy
         [of "OtherException ''boom''" new_checker "[]" False True] u
  have "stop True new_checker = new_checker" by blast
  ultimately show ?thesis using t e u by blast
qed

section \<open>The processor\<close>

lemmas world_defs = Let_def run_cycle_def health_gate_def is_rpc_healthy_def and_then_def
  scan_and_process_blocks_def check_confirmations_def del_key_def
  relay_mint_transaction_def relay_body_def getitem_def
  new_processor_def new_event_scanner_def load_last_scanned_block_def load_fallback_def
  world_def healthy_http_def source_down_http_def dest_down_http_def processor_at_def
  scanner_at_def node_def deposit_def good_dest_def offline_dest_def reverting_dest_def

text \<open>
  C7. When the probe of either endpoint finds it unhealthy, the cycle consists of one
  sleep of 60 seconds and leaves the processor as it was: no height is read, no logs are
  fetched, nothing is relayed. The 60 seconds are a constant; a cycle that passes the
  gate and whose scan returns ends with a sleep of the configured poll interval.
\<close>

theorem unhealthy_cycle_only_sleeps:
  "(is_rpc_healthy (post env) (source_rpc_url (config p)) = Inr False
      \<or> is_rpc_healthy (post env) (dest_rpc_url (config p)) = Inr False
    \<longrightarrow> run_cycle env p = ([Sleep 60], p))
   \<and> (health_gate env p = Inr True
        \<and> fst (snd (scan_and_process_blocks (chain env) (event_scanner p))) = Inr evs
      \<longrightarrow> last (fst (run_cycle env p)) = Sleep (scan_interval_seconds (config p)))"
proof (intro conjI impI)
  assume a: "is_rpc_healthy (post env) (source_rpc_url (config p)) = Inr False
      \<or> is_rpc_healthy (post env) (dest_rpc_url (config p)) = Inr False"
  have "health_gate env p \<noteq> Inr True"
    using a by (auto simp: health_gate_def and_then_def split: sum.splits)
  then show "run_cycle env p = ([Sleep 60], p)"
    by (auto simp: run_cycle_def split: sum.splits bool.splits)
next
  assume "health_gate env p = Inr True
        \<and> fst (snd (scan_and_process_blocks (chain env) (event_scanner p))) = Inr evs"
  then show "last (fst (run_cycle env p)) = Sleep (scan_interval_seconds (config p))"
    by (auto simp: run_cycle_def split: prod.splits sum.splits)
qed

theorem unhealthy_cycle_only_sleeps_witness:
  "is_rpc_healthy source_down_http ''http://source'' = Inr False
   \<and> run_cycle (world source_down_http (node 100 [deposit ''0xaa'' 88]) good_dest)
        (processor_at 87) = ([Sleep 60], processor_at 87)
   \<and> is_rpc_healthy dest_down_http ''http://dest'' = Inr False
   \<and> run_cycle (world dest_down_http (node 100 [deposit ''0xaa'' 88]) good_dest)
        (processor_at 87) = ([Sleep 60], processor_at 87)
   \<and> health_gate (world healthy_http (node 100 [deposit ''0xaa'' 88]) good_dest)
        (processor_at 87) = Inr True
   \<and> last (fst (run_cycle (world healthy_http (node 100 [deposit ''0xaa'' 88]) good_dest)
                   (processor_at 87))) = Sleep 15"
proof -
  let ?n = "node 100 [deposit ''0xaa'' 88]"
  have a: "is_rpc_healthy source_down_http ''http://source'' = Inr False"
    and b: "is_rpc_healthy dest_down_http ''http://dest'' = Inr False"
    by (simp_all add: is_rpc_healthy_def and_then_def source_down_http_def dest_down_http_def)
  have g: "health_gate (world healthy_http ?n good_dest) (processor_at 87) = Inr True"
    by (simp add: health_gate_def is_rpc_healthy_def and_then_def healthy_http_def world_def
          processor_at_def)
  have sc: "fst (snd (scan_and_process_blocks (chain (world healthy_http ?n good_dest))
                        (event_scanner (processor_at 87)))) = Inr [deposit ''0xaa'' 88]"
    by (simp add: world_defs)
  have f: "post (world source_down_http ?n good_dest) = source_down_http"
       "post (world dest_down_http ?n good_dest) = dest_down_http"
       "source_rpc_url (config (processor_at 87)) = ''http://source''"
       "dest_rpc_url (config (processor_at 87)) = ''http://dest''"
       "scan_interval_seconds (config (processor_at 87)) = 15"
    by (simp_all add: world_def processor_at_def)
  have 1: "run_cycle (world source_down_http ?n good_dest) (processor_at 87)
             = ([Sleep 60], processor_at 87)"
    using unhealthy_cycle_only_sleeps
            [of "world source_down_http ?n good_dest" "processor_at 87" "[]"] a
    unfolding f by blast
  have 2: "run_cycle (world dest_down_http ?n good_dest) (processor_at 87)
             = ([Sleep 60], processor_at 87)"
    using unhealthy_cycle_only_sleeps
            [of "world dest_down_http ?n good_dest" "processor_at 87" "[]"] b
    unfolding f by blast
  have 3: "last (fst (run_cycle (world healthy_http ?n good_dest) (processor_at 87))) = Sleep 15"
    using unhealthy_cycle_only_sleeps
            [of "world healthy_http ?n good_dest" "processor_at 87" "[deposit ''0xaa'' 88]"] g sc
    unfolding f by blast
  from a b g 1 2 3 show ?thesis by blast
qed

subsection \<open>The ledger over the cycles of one process\<close>

lemma ledger_adds_append: "ledger_adds (tr @ tr') = ledger_adds tr @ ledger_adds tr'"
  by (induction tr rule: ledger_adds.induct) simp_all

lemma ledger_respected_append:
  "ledger_respected L (tr @ tr') \<longleftrightarrow>
     ledger_respected L tr \<and> ledger_respected (L \<union> set (ledger_adds tr)) tr'"
  by (induction L tr rule: ledger_respected.induct) simp_all

lemma ledger_respected_distinct:
  "ledger_respected L tr \<Longrightarrow> distinct (ledger_adds tr) \<and> set (ledger_adds tr) \<inter> L = {}"
  by (induction L tr rule: ledger_respected.induct) auto

lemma process_events_ledger:
  "ledger_respected cache (fst (process_events d evs cache))
   \<and> snd (process_events d evs cache) =
       cache \<union> set (ledger_adds (fst (process_events d evs cache)))"
proof (induction evs arbitrary: cache)
  case Nil
  show ?case by simp
next
  case (Cons ev evs)
  show ?case
  proof (cases "transactionHash ev \<in> cache")
    case True
    with Cons[of cache] show ?thesis by simp
  next
    case False
    show ?thesis
    proof (cases "relay_mint_transaction (d ev) ev")
      case None
      with False Cons[of cache] show ?thesis by (simp add: split_def Let_def)
    next
      case (Some h)
      show ?thesis
      proof (cases "h = []")
        case True
        with Some False Cons[of cache] show ?thesis by (simp add: split_def Let_def)
      next
        case nonempty: False
        with Some False Cons[of "insert (transactionHash ev) cache"] show ?thesis
          by (simp add: split_def Let_def)
      qed
    qed
  qed
qed

lemma scan_trace_ledger:
  "ledger_respected L (fst (scan_and_process_blocks ch s))
   \<and> ledger_adds (fst (scan_and_process_blocks ch s)) = []"
  by (simp add: scan_and_process_blocks_def Let_def split: sum.splits option.splits prod.splits)

lemma run_cycle_ledger:
  "ledger_respected (processed_txs_cache p) (fst (run_cycle env p))
   \<and> processed_txs_cache (snd (run_cycle env p)) =
       processed_txs_cache p \<union> set (ledger_adds (fst (run_cycle env p)))"
proof (cases "health_gate env p = Inr True")
  case False
  then have "run_cycle env p = ([Sleep 60], p)"
    by (auto simp: run_cycle_def split: sum.splits bool.splits)
  then show ?thesis by simp
next
  case True
  obtain tr r s' where sc: "scan_and_process_blocks (chain env) (event_scanner p) = (tr, r, s')"
    by (cases "scan_and_process_blocks (chain env) (event_scanner p)") auto
  have tr: "ledger_respected (processed_txs_cache p) tr" "ledger_adds tr = []"
    using scan_trace_ledger[of "processed_txs_cache p" "chain env" "event_scanner p"] sc
    by simp_all
  show ?thesis
  proof (cases r)
    case (Inl e)
    with True sc tr show ?thesis
      by (simp add: run_cycle_def ledger_respected_append ledger_adds_append)
  next
    case (Inr evs)
    with True sc tr process_events_ledger[of "processed_txs_cache p" "dest env" evs]
    show ?thesis
      by (simp add: run_cycle_def ledger_respected_append ledger_adds_append split_def Let_def)
  qed
qed

lemma run_ledger:
  "ledger_respected (processed_txs_cache p) (fst (run envs p))
   \<and> processed_txs_cache (snd (run envs p)) =
       processed_txs_cache p \<union> set (ledger_adds (fst (run envs p)))"
proof (induction envs arbitrary: p)
  case Nil
  show ?case by simp
next
  case (Cons env envs)
  from run_cycle_ledger[of p env] Cons[of "snd (run_cycle env p)"] show ?case
    by (simp add: split_def Let_def ledger_respected_append ledger_adds_append Un_assoc)
qed

text \<open>
  C2, as amended. Over any sequence of cycles of one process, whatever the source chain
  returns in each of them (the same log again included): no event is relayed while its
  hash is in the cache, a hash is added to the cache only while it is not in it, so the
  additions are pairwise different, and the cache at the end is the cache at the start
  with the additions. In the loop over the confirmed events, an event whose hash is in
  the cache is passed over without a call of the relayer.
\<close>

theorem no_double_relay_within_lifetime:
  "ledger_respected (processed_txs_cache p) (fst (run envs p))
   \<and> distinct (ledger_adds (fst (run envs p)))
   \<and> processed_txs_cache (snd (run envs p)) =
       processed_txs_cache p \<union> set (ledger_adds (fst (run envs p)))
   \<and> (transactionHash ev \<in> cache \<longrightarrow>
        process_events d (ev # evs) cache = process_events d evs cache)"
  using run_ledger[of p envs]
    ledger_respected_distinct[of "processed_txs_cache p" "fst (run envs p)"]
  by simp

theorem no_double_relay_within_lifetime_witness:
  "fst (run [world healthy_http (node 100 [deposit ''0xaa'' 88]) good_dest,
             world healthy_http (node 113 [deposit ''0xaa'' 101]) good_dest] (processor_at 87))
   = [Block_number, Get_logs 88 100, Save_last_scanned_block 100,
      Relay (deposit ''0xaa'' 88), Ledger_add ''0xaa'', Sleep 15,
      Block_number, Get_logs 101 113, Save_last_scanned_block 113, Sleep 15]
   \<and> processed_txs_cache
        (snd (run [world healthy_http (node 100 [deposit ''0xaa'' 88]) good_dest,
                   world healthy_http (node 113 [deposit ''0xaa'' 101]) good_dest]
                (processor_at 87))) = {''0xaa''}
   \<and> transactionHash (deposit ''0xaa'' 101) \<in> {''0xaa''}
   \<and> process_events (\<lambda>ev. good_dest) [deposit ''0xaa'' 101] {''0xaa''} = ([], {''0xaa''})"
proof -
  let ?envs = "[world healthy_http (node 100 [deposit ''0xaa'' 88]) good_dest,
                world healthy_http (node 113 [deposit ''0xaa'' 101]) good_dest]"
  have tr: "fst (run ?envs (processor_at 87))
     = [Block_number, Get_logs 88 100, Save_last_scanned_block 100,
        Relay (deposit ''0xaa'' 88), Ledger_add ''0xaa'', Sleep 15,
        Block_number, Get_logs 101 113, Save_last_scanned_block 113, Sleep 15]"
    by (simp add: world_defs)
  have m: "transactionHash (deposit ''0xaa'' 101) \<in> {''0xaa''}"
    by (simp add: deposit_def)
  have c0: "processed_txs_cache (processor_at 87) = {}" by (simp add: processor_at_def)
  from no_double_relay_within_lifetime
         [of "processor_at 87" ?envs "deposit ''0xaa'' 101" "{''0xaa''}" "\<lambda>ev. good_dest" "[]"]
  have c: "processed_txs_cache (snd (run ?envs (processor_at 87)))
             = processed_txs_cache (processor_at 87)
               \<union> set (ledger_adds (fst (run ?envs (processor_at 87))))"
    and s: "process_events (\<lambda>ev. good_dest) [deposit ''0xaa'' 101] {''0xaa''}
             = process_events (\<lambda>ev. good_dest) [] {''0xaa''}"
    using m by blast+
  have "processed_txs_cache (snd (run ?envs (processor_at 87))) = {''0xaa''}"
    unfolding c tr c0 by simp
  moreover
  have "process_events (\<lambda>ev. good_dest) [deposit ''0xaa'' 101] {''0xaa''} = ([], {''0xaa''})"
    unfolding s by simp
  ultimately show ?thesis using tr m by blast
qed

text \<open>
  C2 as stated fails once a restart is among the steps: the new process starts with an
  empty cache, so a log with the hash of an event relayed before the restart is relayed
  and recorded a second time.
\<close>

theorem restart_double_relay_counterexample:
  "map_sum id fst
     (run_steps [Cycle (world healthy_http (node 100 [deposit ''0xaa'' 88]) good_dest),
                 Restart (Inr 101),
                 Cycle (world healthy_http (node 113 [deposit ''0xaa'' 101]) good_dest)]
        (processor_at 87))
   = Inr [Block_number, Get_logs 88 100, Save_last_scanned_block 100,
          Relay (deposit ''0xaa'' 88), Ledger_add ''0xaa'', Sleep 15,
          Block_number, Get_logs 101 113, Save_last_scanned_block 113,
          Relay (deposit ''0xaa'' 101), Ledger_add ''0xaa'', Sleep 15]"
  by (simp add: world_defs)

subsection \<open>A relay that fails\<close>

text \<open>
  C1 on the code. With threshold 12 at height 100, the pass that detects the event of
  block 85 returns it as confirmed and leaves the pending dictionary empty, before any
  relay is attempted. In the cycle of that pass the relay fails because the submission
  raises: at the end of the cycle the event is neither pending nor in the cache, so it is
  tracked nowhere although no outcome was recorded for it.
\<close>

theorem confirmed_event_dropped_before_outcome:
  "fst (snd (scan_and_process_blocks (node 100 [deposit ''0xaa'' 85]) (scanner_at 84 [])))
     = Inr [deposit ''0xaa'' 85]
   \<and> pending_events (snd (snd (scan_and_process_blocks (node 100 [deposit ''0xaa'' 85])
        (scanner_at 84 [])))) = []
   \<and> run_cycle (world healthy_http (node 100 [deposit ''0xaa'' 85]) offline_dest)
        (processor_at 84)
      = ([Block_number, Get_logs 85 100, Save_last_scanned_block 100,
          Relay (deposit ''0xaa'' 85), Sleep 15],
         processor_at 100)
   \<and> pending_events (event_scanner (processor_at 100)) = []
   \<and> processed_txs_cache (processor_at 100) = {}"
  by (simp add: world_defs)

text \<open>
  C6 on the code. The event of block 88 is confirmed at height 100 and its relay fails
  because the submission raises. The cache stays empty, but the event is no longer
  pending and the cursor is 100; the next cycle, at height 101 with the destination
  reachable again, fetches block 101 only and calls the relayer for nothing. The event
  is not retried.
\<close>

theorem failed_relay_not_retried:
  "run [world healthy_http (node 100 [deposit ''0xaa'' 88]) offline_dest,
        world healthy_http (node 101 [deposit ''0xaa'' 88]) good_dest] (processor_at 87)
   = ([Block_number, Get_logs 88 100, Save_last_scanned_block 100,
       Relay (deposit ''0xaa'' 88), Sleep 15,
       Block_number, Get_logs 101 101, Save_last_scanned_block 101, Sleep 15],
      processor_at 101)"
  by (simp add: world_defs)

end
